theory Spec2Isabelle
  imports Complex_Main "HOL-Library.Multiset"
begin

section \<open>The load-test harness: \<^verbatim>\<open>loadtest/gpu_load_test.py\<close>\<close>

subsection \<open>Data\<close>

text \<open>
  Exceptions of the Python programs that the model distinguishes. \<open>SystemExit\<close> carries
  its message; \<open>ClientError\<close> stands for whatever \<^verbatim>\<open>session.post\<close> or
  \<^verbatim>\<open>resp.text()\<close> raises (connection refused, timeout, invalid URL, broken payload);
  \<open>OSError\<close> for a failing file-system call.
\<close>

datatype py_error =
    SystemExit string
  | ZeroDivisionError
  | QueueFull
  | ValueError string
  | ClientError string
  | OSError string

text \<open>
  The payload \<^verbatim>\<open>{'image_id': i, 'params': {'quality': 'low'}}\<close>.
\<close>

record work_item =
  image_id :: int
  quality :: string

text \<open>
  What one HTTP exchange does: the endpoint answers with a status code, or the
  exchange raises. A status code of any class (2xx, 3xx, 4xx, 5xx) is a \<open>Response\<close>:
  the client session is created without \<^verbatim>\<open>raise_for_status\<close>.
\<close>

datatype reply = Response int | Transport_error string

type_synonym endpoint = "work_item \<Rightarrow> reply"

text \<open>
  One entry of \<^verbatim>\<open>results\<close>: the pair \<^verbatim>\<open>(status, t1 - t0)\<close>. The latency is a
  difference of two clock readings; it is idealised as a rational number of seconds.
\<close>

type_synonym outcome = "int \<times> rat"

subsection \<open>\<^verbatim>\<open>asyncio.Queue\<close>\<close>

text \<open>
  The queue of the standard library, as far as the harness uses it: the buffered
  items, the bound \<open>maxsize\<close> (no bound when \<open>maxsize \<le> 0\<close>), and the counter of
  unfinished tasks that \<^verbatim>\<open>put\<close> increments, \<^verbatim>\<open>task_done\<close> decrements and
  \<^verbatim>\<open>join\<close> waits on. An element is a payload or Python's \<^verbatim>\<open>None\<close>.
\<close>

record queue =
  maxsize :: int
  items :: "work_item option list"
  unfinished_tasks :: nat

definition Queue :: "int \<Rightarrow> queue" where
  "Queue m = \<lparr>maxsize = m, items = [], unfinished_tasks = 0\<rparr>"

definition full :: "queue \<Rightarrow> bool" where
  "full q = (if maxsize q \<le> 0 then False else maxsize q \<le> int (length (items q)))"

definition put_nowait :: "queue \<Rightarrow> work_item option \<Rightarrow> py_error + queue" where
  "put_nowait q x =
     (if full q then Inl QueueFull
      else Inr (q\<lparr>items := items q @ [x], unfinished_tasks := Suc (unfinished_tasks q)\<rparr>))"

text \<open>
  \<^verbatim>\<open>await q.get()\<close>: \<open>None\<close> when the queue is empty and the caller stays suspended,
  otherwise the oldest item and the queue without it.
\<close>

definition get :: "queue \<Rightarrow> (work_item option \<times> queue) option" where
  "get q = (case items q of [] \<Rightarrow> None | x # xs \<Rightarrow> Some (x, q\<lparr>items := xs\<rparr>))"

definition task_done :: "queue \<Rightarrow> py_error + queue" where
  "task_done q =
     (if unfinished_tasks q = 0 then Inl (ValueError ''task_done() called too many times'')
      else Inr (q\<lparr>unfinished_tasks := unfinished_tasks q - 1\<rparr>))"

text \<open>\<^verbatim>\<open>await q.join()\<close> returns once no task is unfinished.\<close>

definition join_returns :: "queue \<Rightarrow> bool" where
  "join_returns q = (unfinished_tasks q = 0)"

subsection \<open>The worker coroutine\<close>

text \<open>
  A worker is suspended at \<^verbatim>\<open>await q.get()\<close> (\<open>Waiting\<close>, also before its first
  step), suspended inside the HTTP exchange for the item it dequeued (\<open>Posting\<close>), or
  finished: it left the loop on the \<^verbatim>\<open>None\<close> sentinel (\<open>Exited\<close>), an exception left
  the coroutine (\<open>Failed\<close>), or \<^verbatim>\<open>main\<close> cancelled it (\<open>Cancelled\<close>).
\<close>

datatype worker = Waiting | Posting work_item | Exited | Failed py_error | Cancelled

record run_state =
  q :: queue
  results :: "outcome list"
  workers :: "worker list"

text \<open>
  Lines 14--16: the worker resumes from \<^verbatim>\<open>await q.get()\<close>. On an empty queue it
  stays suspended; on \<^verbatim>\<open>None\<close> it breaks; otherwise it starts the exchange.
\<close>

definition worker_get :: "queue \<Rightarrow> worker \<times> queue" where
  "worker_get qu =
     (case get qu of
        None \<Rightarrow> (Waiting, qu)
      | Some (None, qu') \<Rightarrow> (Exited, qu')
      | Some (Some item, qu') \<Rightarrow> (Posting item, qu'))"

text \<open>
  Lines 17--23: the exchange for \<open>item\<close> ends after \<open>lat\<close> seconds. A raise leaves the
  coroutine (the loop has no handler); a response is appended to \<^verbatim>\<open>results\<close>, then
  \<^verbatim>\<open>q.task_done()\<close> is called and the loop returns to \<^verbatim>\<open>q.get()\<close>.
\<close>

definition worker_post ::
  "endpoint \<Rightarrow> rat \<Rightarrow> work_item \<Rightarrow> queue \<Rightarrow> outcome list \<Rightarrow> worker \<times> queue \<times> outcome list" where
  "worker_post ep lat item qu res =
     (case ep item of
        Transport_error m \<Rightarrow> (Failed (ClientError m), qu, res)
      | Response status \<Rightarrow>
          (let res' = res @ [(status, lat)] in
           case task_done qu of
             Inl e \<Rightarrow> (Failed e, qu, res')
           | Inr qu' \<Rightarrow> (Waiting, qu', res')))"

text \<open>
  The event loop runs one worker at a time between suspension points. An event names
  the worker that is resumed: \<open>Get w\<close> resumes worker \<open>w\<close> at \<^verbatim>\<open>q.get()\<close>, and
  \<open>Done w lat\<close> completes its HTTP exchange with measured latency \<open>lat\<close>. An event
  for a worker that is not at that point leaves the state as it is.
\<close>

datatype event = Get nat | Done nat rat

fun step :: "endpoint \<Rightarrow> event \<Rightarrow> run_state \<Rightarrow> run_state" where
  "step ep (Get w) s =
     (if w < length (workers s) \<and> workers s ! w = Waiting then
        (case worker_get (q s) of
           (wk, qu') \<Rightarrow> s\<lparr>q := qu', workers := (workers s)[w := wk]\<rparr>)
      else s)"
| "step ep (Done w lat) s =
     (if w < length (workers s) then
        (case workers s ! w of
           Posting item \<Rightarrow>
             (case worker_post ep lat item (q s) (results s) of
                (wk, qu', res') \<Rightarrow>
                  s\<lparr>q := qu', results := res', workers := (workers s)[w := wk]\<rparr>)
         | _ \<Rightarrow> s)
      else s)"

text \<open>
  While \<^verbatim>\<open>main\<close> is suspended in \<^verbatim>\<open>await q.join()\<close> the events of the schedule
  happen in order; \<^verbatim>\<open>main\<close> continues as soon as the join is satisfied.
\<close>

fun run :: "endpoint \<Rightarrow> event list \<Rightarrow> run_state \<Rightarrow> run_state" where
  "run ep [] s = s"
| "run ep (e # es) s = (if join_returns (q s) then s else run ep es (step ep e s))"


subsection \<open>\<^verbatim>\<open>main\<close>\<close>

definition payload :: "int \<Rightarrow> work_item" where
  "payload i = \<lparr>image_id = i, quality = ''low''\<rparr>"

text \<open>\<^verbatim>\<open>range(total)\<close>: empty when \<open>total \<le> 0\<close>.\<close>

definition py_range :: "int \<Rightarrow> int list" where
  "py_range n = map int [0..<nat n]"

text \<open>Lines 28--29: the loop of \<^verbatim>\<open>put_nowait\<close> calls; the first raise ends it.\<close>

fun fill :: "queue \<Rightarrow> int list \<Rightarrow> py_error + queue" where
  "fill qu [] = Inr qu"
| "fill qu (i # is) =
     (case put_nowait qu (Some (payload i)) of
        Inl e \<Rightarrow> Inl e
      | Inr qu' \<Rightarrow> fill qu' is)"

text \<open>Line 32: one task per element of \<^verbatim>\<open>range(concurrency)\<close>.\<close>

definition create_workers :: "int \<Rightarrow> worker list" where
  "create_workers concurrency = map (\<lambda>_. Waiting) (py_range concurrency)"

text \<open>
  Lines 34--35: \<^verbatim>\<open>w.cancel()\<close> stops a task that is still suspended; a task that
  has finished keeps its result.
\<close>

fun cancel :: "worker \<Rightarrow> worker" where
  "cancel Waiting = Cancelled"
| "cancel (Posting item) = Cancelled"
| "cancel wk = wk"

record run_summary =
  n_requests :: nat
  n_ok :: nat
  avg_latency :: rat

text \<open>
  Lines 36--37: the summary line. The division is Python's: it raises on an empty
  result list.
\<close>

definition summarize :: "outcome list \<Rightarrow> py_error + run_summary" where
  "summarize res =
     (let ok = filter (\<lambda>r. fst r = 200) res in
      if length res = 0 then Inl ZeroDivisionError
      else Inr \<lparr>n_requests = length res, n_ok = length ok,
                avg_latency = sum_list (map snd res) / of_nat (length res)\<rparr>)"

text \<open>
  How a call of \<^verbatim>\<open>main\<close> ends: the summary is printed, an exception leaves it, or
  it is still suspended in \<^verbatim>\<open>q.join()\<close> when the schedule is exhausted.
\<close>

datatype main_result = Printed run_summary | Raised py_error | Blocked

text \<open>The state in which \<^verbatim>\<open>main\<close> stops waiting, if the queue could be filled.\<close>

definition main_state :: "endpoint \<Rightarrow> event list \<Rightarrow> int \<Rightarrow> int \<Rightarrow> py_error + run_state" where
  "main_state ep sched concurrency tot =
     (case fill (Queue 0) (py_range tot) of
        Inl e \<Rightarrow> Inl e
      | Inr q0 \<Rightarrow>
          Inr (run ep sched \<lparr>q = q0, results = [], workers = create_workers concurrency\<rparr>))"

definition cancel_all :: "run_state \<Rightarrow> run_state" where
  "cancel_all s = s\<lparr>workers := map cancel (workers s)\<rparr>"

definition main :: "endpoint \<Rightarrow> event list \<Rightarrow> int \<Rightarrow> int \<Rightarrow> main_result" where
  "main ep sched concurrency tot =
     (case main_state ep sched concurrency tot of
        Inl e \<Rightarrow> Raised e
      | Inr s \<Rightarrow>
          if \<not> join_returns (q s) then Blocked
          else (case summarize (results (cancel_all s)) of
                  Inl e \<Rightarrow> Raised e
                | Inr sm \<Rightarrow> Printed sm))"

text \<open>
  Lines 7--10 and 39--44: the module reads \<^verbatim>\<open>INFERENCE_ENDPOINT\<close> and exits when it
  is unset or empty; otherwise \<^verbatim>\<open>main\<close> runs with the parsed integers. \<open>net\<close> is
  what the network answers at a given URL.
\<close>

definition ENDPOINT :: "string option \<Rightarrow> py_error + string" where
  "ENDPOINT env =
     (case env of
        None \<Rightarrow> Inl (SystemExit ''Set INFERENCE_ENDPOINT in .env'')
      | Some url \<Rightarrow>
          if url = [] then Inl (SystemExit ''Set INFERENCE_ENDPOINT in .env'') else Inr url)"

definition harness ::
  "string option \<Rightarrow> (string \<Rightarrow> endpoint) \<Rightarrow> event list \<Rightarrow> int \<Rightarrow> int \<Rightarrow> main_result" where
  "harness env net sched concurrency tot =
     (case ENDPOINT env of
        Inl e \<Rightarrow> Raised e
      | Inr url \<Rightarrow> main (net url) sched concurrency tot)"

text \<open>The exit status of the process; none while it is blocked.\<close>

fun exit_status :: "main_result \<Rightarrow> int option" where
  "exit_status (Printed sm) = Some 0"
| "exit_status (Raised e) = Some 1"
| "exit_status Blocked = None"


section \<open>The health endpoints: \<^verbatim>\<open>backend/app/health.py\<close>\<close>

text \<open>
  A raised exception object: whether it is an instance of Python's \<^verbatim>\<open>Exception\<close>, and
  the text that \<^verbatim>\<open>str(e)\<close> gives. The errors of the database driver and of the
  network are instances of \<^verbatim>\<open>Exception\<close>; \<^verbatim>\<open>asyncio.CancelledError\<close> (raised at an
  \<^verbatim>\<open>await\<close> when the request's task is cancelled), \<^verbatim>\<open>KeyboardInterrupt\<close> and
  \<^verbatim>\<open>SystemExit\<close> derive from \<^verbatim>\<open>BaseException\<close> only.
\<close>

datatype exn = Exn (is_Exception: bool) (str: string)

text \<open>A connection: what awaiting its \<^verbatim>\<open>close()\<close> does.\<close>

datatype connection = Connection (close: "exn + unit")

text \<open>
  Awaiting \<^verbatim>\<open>asyncpg.connect\<close>: from the DSN (or \<^verbatim>\<open>None\<close>) to a connection or a raise.
\<close>

type_synonym asyncpg = "string option \<Rightarrow> exn + connection"

datatype json_value = JBool bool | JStr string

type_synonym response = "(string \<times> json_value) list"

definition healthz :: "response" where
  "healthz = [(''status'', JStr ''ok'')]"

text \<open>
  \<^verbatim>\<open>try: body except Exception as e: handler(e)\<close>: the handler runs for a raised
  instance of \<^verbatim>\<open>Exception\<close>; any other raise passes through.
\<close>

definition try_except :: "exn + 'a \<Rightarrow> (exn \<Rightarrow> exn + 'a) \<Rightarrow> exn + 'a" where
  "try_except body handler =
     (case body of
        Inl e \<Rightarrow> if is_Exception e then handler e else Inl e
      | Inr v \<Rightarrow> Inr v)"

definition readyz :: "asyncpg \<Rightarrow> (string \<rightharpoonup> string) \<Rightarrow> exn + response" where
  "readyz connect environ =
     try_except
       (case connect (environ ''DATABASE_URL'') of
          Inl e \<Rightarrow> Inl e
        | Inr conn \<Rightarrow>
            (case close conn of
               Inl e \<Rightarrow> Inl e
             | Inr _ \<Rightarrow> Inr [(''ready'', JBool True)]))
       (\<lambda>e. Inr [(''ready'', JBool False), (''error'', JStr (str e))])"

section \<open>The logger factory: \<^verbatim>\<open>backend/logger.py\<close>\<close>

datatype formatter = JsonFormatter

text \<open>The two handlers the module creates, with their constructor arguments.\<close>

datatype handler =
    RotatingFileHandler string nat nat formatter
  | StreamHandler formatter

record logger =
  level :: nat
  handlers :: "handler list"

text \<open>
  The loggers that \<^verbatim>\<open>logging\<close> knows, by name: \<^verbatim>\<open>logging.getLogger(name)\<close> returns
  the one object registered under \<open>name\<close> and registers a fresh one (no handlers,
  level \<^verbatim>\<open>NOTSET\<close>; the root logger, named by the empty string, starts at
  \<^verbatim>\<open>WARNING\<close>) when there is none. A logger object is referred to by its name.
\<close>

type_synonym registry = "string \<rightharpoonup> logger"

definition getLogger :: "string \<Rightarrow> registry \<Rightarrow> logger \<times> registry" where
  "getLogger name reg =
     (case reg name of
        Some lg \<Rightarrow> (lg, reg)
      | None \<Rightarrow>
          (let lg = \<lparr>level = (if name = [] then 30 else 0), handlers = []\<rparr>
           in (lg, reg(name \<mapsto> lg))))"

text \<open>\<^verbatim>\<open>Logger.addHandler\<close> appends a handler that is not attached yet.\<close>

definition addHandler :: "handler \<Rightarrow> logger \<Rightarrow> logger" where
  "addHandler h lg = (if h \<in> set (handlers lg) then lg else lg\<lparr>handlers := handlers lg @ [h]\<rparr>)"

text \<open>The level names that \<^verbatim>\<open>setLevel\<close> accepts as a string.\<close>

definition nameToLevel :: "string \<rightharpoonup> nat" where
  "nameToLevel =
     [''CRITICAL'' \<mapsto> 50, ''FATAL'' \<mapsto> 50, ''ERROR'' \<mapsto> 40, ''WARN'' \<mapsto> 30,
      ''WARNING'' \<mapsto> 30, ''INFO'' \<mapsto> 20, ''DEBUG'' \<mapsto> 10, ''NOTSET'' \<mapsto> 0]"

definition checkLevel :: "string \<Rightarrow> py_error + nat" where
  "checkLevel name =
     (case nameToLevel name of
        None \<Rightarrow> Inl (ValueError (''Unknown level: '' @ name))
      | Some l \<Rightarrow> Inr l)"

text \<open>\<^verbatim>\<open>str.upper\<close> on ASCII text.\<close>

definition upper_char :: "char \<Rightarrow> char" where
  "upper_char c =
     (let n = of_char c :: nat in if 97 \<le> n \<and> n \<le> 122 then char_of (n - 32) else c)"

definition upper :: "string \<Rightarrow> string" where
  "upper s = map upper_char s"

text \<open>
  \<^verbatim>\<open>os.path.dirname\<close> (POSIX): everything up to the last slash, without trailing
  slashes unless it consists of slashes only.
\<close>

fun rstrip_slash :: "string \<Rightarrow> string" where
  "rstrip_slash s = rev (dropWhile (\<lambda>c. c = CHR ''/'') (rev s))"

definition dirname :: "string \<Rightarrow> string" where
  "dirname p =
     (let head = rev (dropWhile (\<lambda>c. c \<noteq> CHR ''/'') (rev p))
      in if head \<noteq> [] \<and> \<not> list_all (\<lambda>c. c = CHR ''/'') head then rstrip_slash head else head)"

text \<open>
  What the operating system does for the module: the environment, and whether
  creating the log directory and opening the log file succeed.
\<close>

record os_world =
  getenv :: "string \<rightharpoonup> string"
  makedirs :: "string \<Rightarrow> py_error option"
  open_file :: "string \<Rightarrow> py_error option"

text \<open>
  \<^verbatim>\<open>get_logger(name, log_file)\<close>: the result is the logger (by name) or the exception
  that left the function, together with the registry as the call leaves it.
\<close>

definition get_logger ::
  "os_world \<Rightarrow> string \<Rightarrow> string \<Rightarrow> registry \<Rightarrow> (py_error + string) \<times> registry" where
  "get_logger os name log_file reg =
     (case getLogger name reg of
        (lg, reg1) \<Rightarrow>
          if handlers lg \<noteq> [] then (Inr name, reg1)
          else
            (case checkLevel (upper (case getenv os ''LOG_LEVEL'' of None \<Rightarrow> ''INFO'' | Some v \<Rightarrow> v)) of
               Inl e \<Rightarrow> (Inl e, reg1)
             | Inr l \<Rightarrow>
                 (let lg1 = lg\<lparr>level := l\<rparr> in
                  case makedirs os (dirname log_file) of
                    Some e \<Rightarrow> (Inl e, reg1(name \<mapsto> lg1))
                  | None \<Rightarrow>
                      (case open_file os log_file of
                         Some e \<Rightarrow> (Inl e, reg1(name \<mapsto> lg1))
                       | None \<Rightarrow>
                           (let handler = RotatingFileHandler log_file (5 * 1024 * 1024) 5 JsonFormatter;
                                lg2 = addHandler handler lg1;
                                sh = StreamHandler JsonFormatter;
                                lg3 = addHandler sh lg2
                            in (Inr name, reg1(name \<mapsto> lg3)))))))"

section \<open>Runs of the harness: invariant and progress\<close>

subsection \<open>Definitions\<close>

text \<open>The item a worker holds while its HTTP exchange is under way.\<close>

fun posting :: "worker \<Rightarrow> work_item multiset" where
  "posting (Posting item) = {#item#}"
| "posting wk = {#}"

text \<open>The items dequeued and not yet answered, over all workers.\<close>

definition in_flight :: "worker list \<Rightarrow> work_item multiset" where
  "in_flight ws = sum_list (map posting ws)"

text \<open>Workers that an exception has ended.\<close>

fun is_failed :: "worker \<Rightarrow> nat" where
  "is_failed (Failed e) = 1"
| "is_failed wk = 0"

definition n_failed :: "worker list \<Rightarrow> nat" where
  "n_failed ws = sum_list (map is_failed ws)"

text \<open>The payloads among the queued elements.\<close>

fun payloads :: "work_item option list \<Rightarrow> work_item list" where
  "payloads [] = []"
| "payloads (None # xs) = payloads xs"
| "payloads (Some item # xs) = item # payloads xs"

text \<open>The status code an item contributes to the results: none when its exchange raises.\<close>

fun status_of :: "endpoint \<Rightarrow> work_item \<Rightarrow> int multiset" where
  "status_of ep item = (case ep item of Response st \<Rightarrow> {#st#} | Transport_error m \<Rightarrow> {#})"

definition statuses :: "endpoint \<Rightarrow> work_item multiset \<Rightarrow> int multiset" where
  "statuses ep M = (\<Sum>item \<in># M. status_of ep item)"

text \<open>The invariant of a run over the indices \<open>idx\<close>: no sentinel is queued; no worker has
  left its loop or been cancelled; the unfinished-task counter counts the queued items, the
  items in flight and the items lost with a failed worker; every index is recorded or
  unfinished; and the recorded status codes together with those still to come are the
  status codes of the workload.\<close>

definition inv :: "endpoint \<Rightarrow> int list \<Rightarrow> run_state \<Rightarrow> bool" where
  "inv ep idx s \<longleftrightarrow>
     None \<notin> set (items (q s)) \<and>
     Exited \<notin> set (workers s) \<and> Cancelled \<notin> set (workers s) \<and>
     unfinished_tasks (q s) = length (items (q s)) + size (in_flight (workers s)) + n_failed (workers s) \<and>
     length (results s) + unfinished_tasks (q s) = length idx \<and>
     mset (map fst (results s)) + statuses ep (mset (payloads (items (q s))) + in_flight (workers s))
       = statuses ep (mset (map payload idx))"

text \<open>The endpoint answered (with whatever status code).\<close>

fun is_response :: "reply \<Rightarrow> bool" where
  "is_response (Response st) = True"
| "is_response (Transport_error m) = False"

text \<open>
  The states a worker can be in before \<^verbatim>\<open>main\<close> cancels it: idle at the queue, inside
  an exchange, or ended by the exception its exchange raised.
\<close>

fun running_or_raised :: "worker \<Rightarrow> bool" where
  "running_or_raised Waiting = True"
| "running_or_raised (Posting item) = True"
| "running_or_raised (Failed (ClientError m)) = True"
| "running_or_raised wk = False"


subsection \<open>Lemmas\<close>

lemma sum_list_map_update:
  fixes f :: "'a \<Rightarrow> 'b::comm_monoid_add"
  shows "w < length ws \<Longrightarrow> sum_list (map f (ws[w := x])) + f (ws ! w) = sum_list (map f ws) + f x"
proof (induction ws arbitrary: w)
  case Nil
  then show ?case by simp
next
  case (Cons a ws)
  show ?case
  proof (cases w)
    case 0
    then show ?thesis by (simp add: ac_simps)
  next
    case (Suc k)
    with Cons.prems have "k < length ws" by simp
    from Cons.IH[OF this] Suc show ?thesis
      by (simp add: add.assoc)
  qed
qed

lemma in_flight_update:
  "w < length ws \<Longrightarrow> in_flight (ws[w := x]) + posting (ws ! w) = in_flight ws + posting x"
  unfolding in_flight_def by (rule sum_list_map_update)

lemma n_failed_update:
  "w < length ws \<Longrightarrow> n_failed (ws[w := x]) + is_failed (ws ! w) = n_failed ws + is_failed x"
  unfolding n_failed_def by (rule sum_list_map_update)

lemma in_flight_start:
  "w < length ws \<Longrightarrow> ws ! w = Waiting \<Longrightarrow> in_flight (ws[w := x]) = in_flight ws + posting x"
  using in_flight_update[of w ws x] by simp

lemma n_failed_start:
  "w < length ws \<Longrightarrow> ws ! w = Waiting \<Longrightarrow> n_failed (ws[w := x]) = n_failed ws + is_failed x"
  using n_failed_update[of w ws x] by simp

lemma in_flight_finish:
  "w < length ws \<Longrightarrow> ws ! w = Posting item \<Longrightarrow> posting x = {#} \<Longrightarrow>
     in_flight ws = add_mset item (in_flight (ws[w := x]))"
  using in_flight_update[of w ws x] by simp

lemma n_failed_finish:
  "w < length ws \<Longrightarrow> ws ! w = Posting item \<Longrightarrow> n_failed (ws[w := x]) = n_failed ws + is_failed x"
  using n_failed_update[of w ws x] by simp

lemma not_in_update: "y \<notin> set ws \<Longrightarrow> y \<noteq> x \<Longrightarrow> y \<notin> set (ws[w := x])"
  using set_update_subset_insert[of ws w x] by auto

lemma statuses_add [simp]: "statuses ep (A + B) = statuses ep A + statuses ep B"
  by (simp add: statuses_def)

lemma statuses_add_mset [simp]: "statuses ep (add_mset x A) = status_of ep x + statuses ep A"
  by (simp add: statuses_def)

lemma statuses_empty [simp]: "statuses ep {#} = {#}"
  by (simp add: statuses_def)

lemma inv_step_Get:
  assumes "inv ep idx s"
  shows "inv ep idx (step ep (Get w) s)"
proof (cases "w < length (workers s) \<and> workers s ! w = Waiting")
  case False
  then show ?thesis using assms by auto
next
  case True
  then have w: "w < length (workers s)" and ww: "workers s ! w = Waiting" by simp_all
  show ?thesis
  proof (cases "items (q s)")
    case Nil
    then have "step ep (Get w) s = s"
      using True by (simp add: worker_get_def get_def list_update_same_conv[THEN iffD2])
    then show ?thesis using assms by simp
  next
    case (Cons x xs)
    with assms obtain item where x: "x = Some item"
      by (cases x) (auto simp: inv_def)
    have st: "step ep (Get w) s = s\<lparr>q := (q s)\<lparr>items := xs\<rparr>, workers := (workers s)[w := Posting item]\<rparr>"
      using True Cons x by (simp add: worker_get_def get_def)
    show ?thesis
      using assms Cons x unfolding st inv_def
      by (simp add: in_flight_start[OF w ww] n_failed_start[OF w ww] not_in_update)
  qed
qed

lemma inv_step_Done:
  assumes "inv ep idx s"
  shows "inv ep idx (step ep (Done w lat) s)"
proof (cases "w < length (workers s)")
  case False
  then show ?thesis using assms by simp
next
  case w: True
  show ?thesis
  proof (cases "workers s ! w")
    case (Posting item)
    have pos: "0 < unfinished_tasks (q s)"
      using assms in_flight_finish[OF w Posting, of Waiting] by (simp add: inv_def)
    show ?thesis
    proof (cases "ep item")
      case (Response status)
      have st: "step ep (Done w lat) s =
          s\<lparr>q := (q s)\<lparr>unfinished_tasks := unfinished_tasks (q s) - 1\<rparr>,
            results := results s @ [(status, lat)],
            workers := (workers s)[w := Waiting]\<rparr>"
        using w Posting Response pos by (simp add: worker_post_def task_done_def)
      show ?thesis
        using assms pos Response unfolding st inv_def
        by (simp add: in_flight_finish[OF w Posting, of Waiting]
            n_failed_finish[OF w Posting] not_in_update)
    next
      case (Transport_error m)
      have st: "step ep (Done w lat) s = s\<lparr>workers := (workers s)[w := Failed (ClientError m)]\<rparr>"
        using w Posting Transport_error by (simp add: worker_post_def)
      show ?thesis
        using assms pos Transport_error unfolding st inv_def
        by (simp add: in_flight_finish[OF w Posting, of "Failed (ClientError m)"]
            n_failed_finish[OF w Posting] not_in_update)
    qed
  qed (use assms w in simp_all)
qed

lemma inv_step: "inv ep idx s \<Longrightarrow> inv ep idx (step ep e s)"
  by (cases e) (simp_all only: inv_step_Get inv_step_Done)

lemma inv_run: "inv ep idx s \<Longrightarrow> inv ep idx (run ep sched s)"
  by (induction sched arbitrary: s) (simp_all add: inv_step)

lemma fill_unbounded:
  "maxsize qu \<le> 0 \<Longrightarrow>
     fill qu idx = Inr (qu\<lparr>items := items qu @ map (\<lambda>i. Some (payload i)) idx,
                          unfinished_tasks := unfinished_tasks qu + length idx\<rparr>)"
  by (induction idx arbitrary: qu) (simp_all add: put_nowait_def full_def)

lemma fill_Queue0:
  "fill (Queue 0) idx =
     Inr \<lparr>maxsize = 0, items = map (\<lambda>i. Some (payload i)) idx, unfinished_tasks = length idx\<rparr>"
  by (simp add: fill_unbounded Queue_def)

lemma payloads_map_Some [simp]: "payloads (map (\<lambda>i. Some (f i)) idx) = map f idx"
  by (induction idx) simp_all

lemma in_flight_create [simp]: "in_flight (create_workers c) = {#}"
  by (simp add: in_flight_def create_workers_def comp_def)

lemma n_failed_create [simp]: "n_failed (create_workers c) = 0"
  by (simp add: n_failed_def create_workers_def comp_def)

lemma set_create: "set (create_workers c) \<subseteq> {Waiting}"
  by (auto simp: create_workers_def)

lemma inv_init:
  "inv ep idx \<lparr>q = \<lparr>maxsize = 0, items = map (\<lambda>i. Some (payload i)) idx,
                      unfinished_tasks = length idx\<rparr>,
                results = [], workers = create_workers c\<rparr>"
  using set_create[of c] by (auto simp: inv_def)

lemma main_state_eq:
  "main_state ep sched c t =
     Inr (run ep sched \<lparr>q = \<lparr>maxsize = 0, items = map (\<lambda>i. Some (payload i)) (py_range t),
                                  unfinished_tasks = length (py_range t)\<rparr>,
                            results = [], workers = create_workers c\<rparr>)"
  by (simp add: main_state_def fill_Queue0)

lemma main_state_inv: "main_state ep sched c t = Inr s \<Longrightarrow> inv ep (py_range t) s"
  unfolding main_state_eq using inv_run[OF inv_init] by auto

lemma results_cancel_all [simp]: "results (cancel_all s) = results s"
  by (simp add: cancel_all_def)

lemma inv_joined:
  assumes "inv ep idx s" "join_returns (q s)"
  shows "items (q s) = []" "in_flight (workers s) = {#}" "n_failed (workers s) = 0"
    "length (results s) = length idx"
    "mset (map fst (results s)) = statuses ep (mset (map payload idx))"
  using assms by (auto simp: inv_def join_returns_def)

lemma in_flight_empty_iff: "in_flight ws = {#} \<longleftrightarrow> (\<forall>w \<in> set ws. posting w = {#})"
  unfolding in_flight_def by (induction ws) auto

lemma n_failed_zero_iff: "n_failed ws = 0 \<longleftrightarrow> (\<forall>w \<in> set ws. is_failed w = 0)"
  unfolding n_failed_def by (induction ws) auto

lemma inv_joined_workers:
  assumes "inv ep idx s" "join_returns (q s)" "wk \<in> set (workers s)"
  shows "wk = Waiting"
proof -
  have "posting wk = {#}" "is_failed wk = 0"
    using inv_joined(2,3)[OF assms(1,2)] assms(3)
    by (auto simp: in_flight_empty_iff n_failed_zero_iff)
  moreover have "wk \<noteq> Exited" "wk \<noteq> Cancelled"
    using assms(1,3) by (auto simp: inv_def)
  ultimately show ?thesis by (cases wk) simp_all
qed

lemma length_filter_count: "length (filter (\<lambda>r. fst r = c) res) = count (mset (map fst res)) c"
  by (induction res) auto

lemma count_statuses:
  "count (statuses ep (mset (map payload idx))) c =
     length (filter (\<lambda>i. ep (payload i) = Response c) idx)"
  by (induction idx) (auto split: reply.splits)

lemma length_py_range [simp]: "length (py_range n) = nat n"
  by (simp add: py_range_def)

lemma main_Printed:
  assumes "main ep sched c t = Printed sm"
  shows "n_requests sm = nat t"
    and "n_ok sm = length (filter (\<lambda>i. ep (payload i) = Response 200) (py_range t))"
proof -
  from assms obtain s where s: "main_state ep sched c t = Inr s" and j: "join_returns (q s)"
    and sm: "summarize (results s) = Inr sm"
    by (auto simp: main_def split: sum.splits if_splits)
  note i = main_state_inv[OF s]
  from sm have "n_requests sm = length (results s)"
    and ok: "n_ok sm = length (filter (\<lambda>r. fst r = 200) (results s))"
    by (auto simp: summarize_def split: if_splits)
  then show "n_requests sm = nat t" using inv_joined(4)[OF i j] by simp
  show "n_ok sm = length (filter (\<lambda>i. ep (payload i) = Response 200) (py_range t))"
    unfolding ok length_filter_count inv_joined(5)[OF i j] by (rule count_statuses)
qed


lemma inv_unfinished_pos:
  assumes "inv ep idx s" "w < length (workers s)" "workers s ! w = Posting item"
  shows "0 < unfinished_tasks (q s)"
  using assms(1) in_flight_finish[OF assms(2,3), of Waiting] by (simp add: inv_def)

lemma step_Done_Response:
  assumes "inv ep idx s" "w < length (workers s)" "workers s ! w = Posting item"
    and "ep item = Response status"
  shows "step ep (Done w lat) s =
          s\<lparr>q := (q s)\<lparr>unfinished_tasks := unfinished_tasks (q s) - 1\<rparr>,
            results := results s @ [(status, lat)],
            workers := (workers s)[w := Waiting]\<rparr>"
  using assms(2-4) inv_unfinished_pos[OF assms(1-3)] by (simp add: worker_post_def task_done_def)

lemma step_Done_Transport_error:
  assumes "w < length (workers s)" "workers s ! w = Posting item" "ep item = Transport_error m"
  shows "step ep (Done w lat) s = s\<lparr>workers := (workers s)[w := Failed (ClientError m)]\<rparr>"
  using assms by (simp add: worker_post_def)


lemma run_joined: "join_returns (q s) \<Longrightarrow> run ep sched s = s"
  by (cases sched) simp_all





lemma length_workers_step [simp]: "length (workers (step ep e s)) = length (workers s)"
  by (cases e) (auto split: worker.splits prod.splits)

lemma length_workers_run [simp]: "length (workers (run ep sched s)) = length (workers s)"
  by (induction sched arbitrary: s) simp_all








text \<open>
  The workers of a run stay in these states; and a workload item whose exchange raises
  keeps the join from returning.
\<close>

lemma running_or_raised_cases:
  "running_or_raised wk \<longleftrightarrow>
     wk = Waiting \<or> (\<exists>item. wk = Posting item) \<or> (\<exists>m. wk = Failed (ClientError m))"
  by (cases wk rule: running_or_raised.cases) simp_all

lemma list_all_update:
  "list_all P ws \<Longrightarrow> P x \<Longrightarrow> list_all P (ws[w := x])"
  using set_update_subset_insert[of ws w x] by (auto simp: list_all_iff)

lemma running_worker_get: "None \<notin> set (items qu) \<Longrightarrow> running_or_raised (fst (worker_get qu))"
  by (auto simp: worker_get_def get_def split: list.splits option.splits)

lemma running_step:
  assumes i: "inv ep idx s" and r: "list_all running_or_raised (workers s)"
  shows "list_all running_or_raised (workers (step ep e s))"
proof (cases e)
  case (Get w)
  have "running_or_raised (fst (worker_get (q s)))"
    using i by (intro running_worker_get) (simp add: inv_def)
  then show ?thesis
    unfolding Get using r by (auto split: prod.splits intro: list_all_update)
next
  case (Done w lat)
  show ?thesis
  proof (cases "w < length (workers s)")
    case w: True
    show ?thesis
    proof (cases "workers s ! w")
      case (Posting item)
      show ?thesis
      proof (cases "ep item")
        case (Response st)
        show ?thesis
          unfolding Done step_Done_Response[OF i w Posting Response]
          using r by (simp add: list_all_update)
      next
        case (Transport_error m)
        show ?thesis
          unfolding Done using r step_Done_Transport_error[of w s item ep m lat, OF w Posting Transport_error]
          by (simp add: list_all_update)
      qed
    qed (use r w Done in simp_all)
  next
    case False
    then show ?thesis unfolding Done using r by simp
  qed
qed

lemma running_run:
  "inv ep idx s \<Longrightarrow> list_all running_or_raised (workers s) \<Longrightarrow>
   list_all running_or_raised (workers (run ep sched s))"
  by (induction sched arbitrary: s) (simp_all add: inv_step running_step)

lemma running_main_state:
  assumes "main_state ep sched c t = Inr s"
  shows "list_all running_or_raised (workers s)"
proof -
  let ?s0 = "\<lparr>q = \<lparr>maxsize = 0, items = map (\<lambda>i. Some (payload i)) (py_range t),
                      unfinished_tasks = length (py_range t)\<rparr>,
               results = [], workers = create_workers c\<rparr>"
  have "list_all running_or_raised (workers ?s0)"
    by (simp add: create_workers_def list_all_iff)
  with inv_init[of ep "py_range t" c] have "list_all running_or_raised (workers (run ep sched ?s0))"
    by (rule running_run)
  with assms show ?thesis by (simp add: main_state_eq)
qed

lemma size_statuses:
  "size (statuses ep (mset (map payload idx)))
     = length (filter (\<lambda>i. is_response (ep (payload i))) idx)"
  by (induction idx) (auto split: reply.splits)

lemma raise_blocks_join:
  assumes i: "inv ep idx s" and x: "\<exists>i \<in> set idx. \<not> is_response (ep (payload i))"
  shows "\<not> join_returns (q s)"
proof
  assume j: "join_returns (q s)"
  have "length (results s) = size (mset (map fst (results s)))" by simp
  also have "\<dots> = length (filter (\<lambda>i. is_response (ep (payload i))) idx)"
    unfolding inv_joined(5)[OF i j] by (rule size_statuses)
  also have "\<dots> < length idx"
  proof -
    from x obtain i where "i \<in> set idx" "\<not> is_response (ep (payload i))" by blast
    then show ?thesis by (rule length_filter_less)
  qed
  finally show False using inv_joined(4)[OF i j] by simp
qed


lemma summarize_nonempty:
  "res \<noteq> [] \<Longrightarrow>
     summarize res = Inr \<lparr>n_requests = length res, n_ok = length (filter (\<lambda>r. fst r = 200) res),
                           avg_latency = sum_list (map snd res) / of_nat (length res)\<rparr>"
  by (simp add: summarize_def)

text \<open>Without workers no event changes the state, and a non-empty queue is never drained.\<close>

lemma no_workers_step: "workers s = [] \<Longrightarrow> step ep e s = s"
  by (cases e) simp_all

lemma no_workers_run: "workers s = [] \<Longrightarrow> run ep sched s = s"
  by (induction sched arbitrary: s) (simp_all add: no_workers_step)

lemma no_workers_blocked:
  assumes "concurrency \<le> 0" and "0 < tot"
  shows "main ep sched concurrency tot = Blocked"
  using assms
  by (simp add: main_def main_state_eq no_workers_run create_workers_def py_range_def
      join_returns_def)

section \<open>The claims about the load-test harness\<close>



text \<open>
  C2. With \<open>total = 0\<close> the queue is empty, \<^verbatim>\<open>q.join()\<close> returns at once, \<^verbatim>\<open>results\<close>
  is empty and the division in the summary line raises: no summary is produced.
\<close>

theorem zero_requests_raise_ZeroDivisionError:
  "main ep sched concurrency 0 = Raised ZeroDivisionError"
  by (simp add: main_def main_state_eq py_range_def join_returns_def run_joined summarize_def)

theorem zero_requests_raise_ZeroDivisionError_witness:
  "main (\<lambda>item. Response 200) [Get 0, Done 0 (1/100)] 5 0 = Raised ZeroDivisionError"
  using zero_requests_raise_ZeroDivisionError[of "\<lambda>item. Response 200" "[Get 0, Done 0 (1/100)]" 5]
  by simp

text \<open>
  C7, as the code has it. When all requests have been answered (\<open>total \<ge> 1\<close>) \<^verbatim>\<open>main\<close>
  prints the summary of \<^verbatim>\<open>results\<close>: the number of outcomes, which is \<open>total\<close>; as
  successes exactly the outcomes whose status is 200, which are as many as the requests
  the endpoint answered with 200, every outcome with another status code (201, 302,
  500, ...) being one of the remaining requests; and the sum of the latencies of all
  outcomes over their number. A transport-level failure records no outcome and is not
  counted: when the exchange of some request raises, \<^verbatim>\<open>q.join()\<close> does not return and
  no summary is printed.
\<close>

theorem summary_of_finished_run:
  assumes "main_state ep sched concurrency tot = Inr s"
  shows "(join_returns (q s) \<and> 1 \<le> tot \<longrightarrow>
            main ep sched concurrency tot =
              Printed \<lparr>n_requests = length (results s),
                       n_ok = length (filter (\<lambda>r. fst r = 200) (results s)),
                       avg_latency = sum_list (map snd (results s)) / of_nat (length (results s))\<rparr> \<and>
            length (results s) = nat tot \<and>
            length (filter (\<lambda>r. fst r = 200) (results s))
              = length (filter (\<lambda>i. ep (payload i) = Response 200) (py_range tot)) \<and>
            length (filter (\<lambda>r. fst r = 200) (results s))
              + length (filter (\<lambda>r. fst r \<noteq> 200) (results s)) = length (results s)) \<and>
         ((\<exists>i \<in> set (py_range tot). \<not> is_response (ep (payload i))) \<longrightarrow>
            \<not> join_returns (q s) \<and> main ep sched concurrency tot = Blocked)"
proof -
  note i = main_state_inv[OF assms]
  have blocked: "main ep sched concurrency tot = Blocked" if "\<not> join_returns (q s)"
    using that assms by (simp add: main_def)
  have fin: "main ep sched concurrency tot =
              Printed \<lparr>n_requests = length (results s),
                       n_ok = length (filter (\<lambda>r. fst r = 200) (results s)),
                       avg_latency = sum_list (map snd (results s)) / of_nat (length (results s))\<rparr> \<and>
            length (results s) = nat tot \<and>
            length (filter (\<lambda>r. fst r = 200) (results s))
              = length (filter (\<lambda>i. ep (payload i) = Response 200) (py_range tot)) \<and>
            length (filter (\<lambda>r. fst r = 200) (results s))
              + length (filter (\<lambda>r. fst r \<noteq> 200) (results s)) = length (results s)"
    if j: "join_returns (q s)" and t: "1 \<le> tot"
  proof -
    have n: "length (results s) = nat tot" using inv_joined(4)[OF i j] by simp
    with t have "results s \<noteq> []" by auto
    from summarize_nonempty[OF this] have
      m: "main ep sched concurrency tot =
              Printed \<lparr>n_requests = length (results s),
                       n_ok = length (filter (\<lambda>r. fst r = 200) (results s)),
                       avg_latency = sum_list (map snd (results s)) / of_nat (length (results s))\<rparr>"
      using assms j by (simp add: main_def)
    have ok: "length (filter (\<lambda>r. fst r = 200) (results s))
              = length (filter (\<lambda>i. ep (payload i) = Response 200) (py_range tot))"
      unfolding length_filter_count inv_joined(5)[OF i j] by (rule count_statuses)
    have "length (filter (\<lambda>r. fst r = 200) (results s))
              + length (filter (\<lambda>r. fst r \<noteq> 200) (results s)) = length (results s)"
      using sum_length_filter_compl[of "\<lambda>r. fst r = 200" "results s"] by simp
    with m n ok show ?thesis by blast
  qed
  from fin blocked raise_blocks_join[OF i] show ?thesis by blast
qed

theorem summary_of_finished_run_witness:
  "main_state (\<lambda>item. Response (if image_id item = 0 then 200
                                  else if image_id item = 1 then 201 else 302))
       [Get 0, Done 0 (1/100), Get 0, Done 0 (1/50), Get 0, Done 0 (3/100)] 1 3
     = Inr \<lparr>q = \<lparr>maxsize = 0, items = [], unfinished_tasks = 0\<rparr>,
            results = [(200, 1/100), (201, 1/50), (302, 3/100)], workers = [Waiting]\<rparr> \<and>
   join_returns \<lparr>maxsize = 0, items = [], unfinished_tasks = 0\<rparr> \<and> (1::int) \<le> 3 \<and>
   main (\<lambda>item. Response (if image_id item = 0 then 200
                             else if image_id item = 1 then 201 else 302))
       [Get 0, Done 0 (1/100), Get 0, Done 0 (1/50), Get 0, Done 0 (3/100)] 1 3
     = Printed \<lparr>n_requests = 3, n_ok = 1, avg_latency = 1/50\<rparr> \<and>
   main (\<lambda>item. if image_id item = 0 then Response 200 else Transport_error ''timeout'')
       [Get 0, Done 0 (1/100), Get 0, Done 0 (1/50)] 1 2
     = Blocked"
proof -
  let ?ep = "\<lambda>item. Response (if image_id item = 0 then 200
                                  else if image_id item = 1 then 201 else 302)"
  let ?sched = "[Get 0, Done 0 (1/100), Get 0, Done 0 (1/50), Get 0, Done 0 (3/100)]"
  let ?s = "\<lparr>q = \<lparr>maxsize = 0, items = [], unfinished_tasks = 0\<rparr>,
            results = [(200, 1/100), (201, 1/50), (302, 3/100)], workers = [Waiting]\<rparr>"
  have m: "main_state ?ep ?sched 1 3 = Inr ?s" by code_simp
  have j: "join_returns (q ?s)" by (simp add: join_returns_def)
  have t: "(1::int) \<le> 3" by simp
  from summary_of_finished_run[OF m] j t
  have "main ?ep ?sched 1 3 =
      Printed \<lparr>n_requests = length (results ?s),
               n_ok = length (filter (\<lambda>r. fst r = 200) (results ?s)),
               avg_latency = sum_list (map snd (results ?s)) / of_nat (length (results ?s))\<rparr>"
    by blast
  then have p: "main ?ep ?sched 1 3 = Printed \<lparr>n_requests = 3, n_ok = 1, avg_latency = 1/50\<rparr>"
    by simp
  let ?ep' = "\<lambda>item. if image_id item = 0 then Response 200 else Transport_error ''timeout''"
  let ?sched' = "[Get 0, Done 0 (1/100), Get 0, Done 0 (1/50)]"
  let ?s' = "\<lparr>q = \<lparr>maxsize = 0, items = [], unfinished_tasks = 1\<rparr>,
            results = [(200, 1/100)], workers = [Failed (ClientError ''timeout'')]\<rparr>"
  have m': "main_state ?ep' ?sched' 1 2 = Inr ?s'" by code_simp
  have x: "\<exists>i \<in> set (py_range 2). \<not> is_response (?ep' (payload i))"
    by (simp add: py_range_def payload_def upt_rec)
  from summary_of_finished_run[OF m'] x have b: "main ?ep' ?sched' 1 2 = Blocked"
    by blast
  from m j t p b show ?thesis by simp
qed

text \<open>
  The claim as stated fails: with two workers and two requests, the second of which
  times out, \<^verbatim>\<open>results\<close> holds the outcome of the first request only and \<^verbatim>\<open>main\<close>
  prints no summary in which the failure could count.
\<close>

theorem transport_failure_not_counted_counterexample:
  "main_state (\<lambda>item. if image_id item = 0 then Response 200 else Transport_error ''timeout'')
       [Get 0, Get 1, Done 0 (1/100), Done 1 (1/50), Get 0] 2 2
     = Inr \<lparr>q = \<lparr>maxsize = 0, items = [], unfinished_tasks = 1\<rparr>,
            results = [(200, 1/100)],
            workers = [Waiting, Failed (ClientError ''timeout'')]\<rparr> \<and>
   main (\<lambda>item. if image_id item = 0 then Response 200 else Transport_error ''timeout'')
       [Get 0, Get 1, Done 0 (1/100), Done 1 (1/50), Get 0] 2 2
     = Blocked"
  by code_simp

text \<open>
  C8. The workload is one payload per index \<open>0, ..., total - 1\<close>, in order, a function of
  the index alone. With the same endpoint function and the same configuration, two runs
  that print a summary, under whatever schedules and latencies, report the same
  number of requests and the same number of successes.
\<close>

theorem repeated_runs_same_counts:
  assumes "main ep sched1 concurrency tot = Printed sm1"
    and "main ep sched2 concurrency tot = Printed sm2"
  shows "n_requests sm1 = n_requests sm2 \<and> n_ok sm1 = n_ok sm2 \<and>
         (\<exists>qu. fill (Queue 0) (py_range tot) = Inr qu \<and> length (items qu) = nat tot \<and>
               (\<forall>k < nat tot. items qu ! k = Some \<lparr>image_id = int k, quality = ''low''\<rparr>))"
  using main_Printed[OF assms(1)] main_Printed[OF assms(2)]
  by (simp add: fill_Queue0 py_range_def payload_def)

theorem repeated_runs_same_counts_witness:
  "main (\<lambda>item. if image_id item = 1 then Response 500 else Response 200)
        [Get 0, Get 1, Done 1 (1/50), Done 0 (1/100), Get 0, Done 0 (3/100)] 2 3
     = Printed \<lparr>n_requests = 3, n_ok = 2, avg_latency = 1/50\<rparr> \<and>
   main (\<lambda>item. if image_id item = 1 then Response 500 else Response 200)
        [Get 1, Done 1 (1/10), Get 1, Done 1 (1/5), Get 0, Done 0 (3/10)] 2 3
     = Printed \<lparr>n_requests = 3, n_ok = 2, avg_latency = 1/5\<rparr> \<and>
   n_requests \<lparr>n_requests = 3, n_ok = 2, avg_latency = 1/50\<rparr>
     = n_requests \<lparr>n_requests = 3, n_ok = 2, avg_latency = 1/5\<rparr> \<and>
   n_ok \<lparr>n_requests = 3, n_ok = 2, avg_latency = 1/50\<rparr>
     = n_ok \<lparr>n_requests = 3, n_ok = 2, avg_latency = 1/5\<rparr>"
proof -
  let ?ep = "\<lambda>item. if image_id item = 1 then Response 500 else Response 200"
  have m1: "main ?ep [Get 0, Get 1, Done 1 (1/50), Done 0 (1/100), Get 0, Done 0 (3/100)] 2 3
     = Printed \<lparr>n_requests = 3, n_ok = 2, avg_latency = 1/50\<rparr>"
    by code_simp
  have m2: "main ?ep [Get 1, Done 1 (1/10), Get 1, Done 1 (1/5), Get 0, Done 0 (3/10)] 2 3
     = Printed \<lparr>n_requests = 3, n_ok = 2, avg_latency = 1/5\<rparr>"
    by code_simp
  from repeated_runs_same_counts[OF m1 m2] m1 m2 show ?thesis by simp
qed

text \<open>
  C3, as the code has it. When the HTTP exchange of a dequeued item gets a response,
  whatever its status code, the outcome with that literal code is appended to
  \<^verbatim>\<open>results\<close>, the task counter is decremented and the worker returns to
  \<^verbatim>\<open>q.get()\<close>. When the exchange raises, the exception leaves the coroutine: that
  worker ends without recording an outcome, and the item stays unfinished, so
  \<^verbatim>\<open>q.join()\<close> has not returned. In both cases no other worker changes.
\<close>

theorem response_recorded_raise_ends_worker:
  assumes "main_state ep sched concurrency tot = Inr s"
    and "w < length (workers s)" and "workers s ! w = Posting item"
  shows "(\<forall>status. ep item = Response status \<longrightarrow>
            step ep (Done w lat) s =
              s\<lparr>q := (q s)\<lparr>unfinished_tasks := unfinished_tasks (q s) - 1\<rparr>,
                results := results s @ [(status, lat)],
                workers := (workers s)[w := Waiting]\<rparr>) \<and>
         (\<forall>m. ep item = Transport_error m \<longrightarrow>
            step ep (Done w lat) s = s\<lparr>workers := (workers s)[w := Failed (ClientError m)]\<rparr> \<and>
            \<not> join_returns (q (step ep (Done w lat) s)))"
proof -
  note i = main_state_inv[OF assms(1)]
  have "\<not> join_returns (q (step ep (Done w lat) s))" if "ep item = Transport_error m" for m
    using inv_unfinished_pos[OF i assms(2,3)]
      step_Done_Transport_error[of w s item ep m lat, OF assms(2,3) that]
    by (simp add: join_returns_def)
  then show ?thesis
    using step_Done_Response[OF i assms(2,3)] step_Done_Transport_error[OF assms(2,3)]
    by blast
qed

theorem response_recorded_raise_ends_worker_witness:
  "main_state (\<lambda>item. if image_id item = 0 then Response 503 else Transport_error ''timeout'')
       [Get 0, Get 1] 2 2
     = Inr \<lparr>q = \<lparr>maxsize = 0, items = [], unfinished_tasks = 2\<rparr>, results = [],
            workers = [Posting \<lparr>image_id = 0, quality = ''low''\<rparr>,
                       Posting \<lparr>image_id = 1, quality = ''low''\<rparr>]\<rparr> \<and>
   step (\<lambda>item. if image_id item = 0 then Response 503 else Transport_error ''timeout'')
       (Done 0 (1/10))
       \<lparr>q = \<lparr>maxsize = 0, items = [], unfinished_tasks = 2\<rparr>, results = [],
        workers = [Posting \<lparr>image_id = 0, quality = ''low''\<rparr>,
                   Posting \<lparr>image_id = 1, quality = ''low''\<rparr>]\<rparr>
     = \<lparr>q = \<lparr>maxsize = 0, items = [], unfinished_tasks = 1\<rparr>, results = [(503, 1/10)],
        workers = [Waiting, Posting \<lparr>image_id = 1, quality = ''low''\<rparr>]\<rparr> \<and>
   step (\<lambda>item. if image_id item = 0 then Response 503 else Transport_error ''timeout'')
       (Done 1 (1/10))
       \<lparr>q = \<lparr>maxsize = 0, items = [], unfinished_tasks = 2\<rparr>, results = [],
        workers = [Posting \<lparr>image_id = 0, quality = ''low''\<rparr>,
                   Posting \<lparr>image_id = 1, quality = ''low''\<rparr>]\<rparr>
     = \<lparr>q = \<lparr>maxsize = 0, items = [], unfinished_tasks = 2\<rparr>, results = [],
        workers = [Posting \<lparr>image_id = 0, quality = ''low''\<rparr>,
                   Failed (ClientError ''timeout'')]\<rparr>"
proof -
  let ?ep = "\<lambda>item. if image_id item = 0 then Response 503 else Transport_error ''timeout''"
  let ?s = "\<lparr>q = \<lparr>maxsize = 0, items = [], unfinished_tasks = 2\<rparr>, results = [],
            workers = [Posting \<lparr>image_id = 0, quality = ''low''\<rparr>,
                       Posting \<lparr>image_id = 1, quality = ''low''\<rparr>]\<rparr>"
  have m: "main_state ?ep [Get 0, Get 1] 2 2 = Inr ?s"
    by code_simp
  have a: "step ?ep (Done 0 (1/10)) ?s =
      ?s\<lparr>q := (q ?s)\<lparr>unfinished_tasks := unfinished_tasks (q ?s) - 1\<rparr>,
         results := results ?s @ [(503, 1/10)], workers := (workers ?s)[0 := Waiting]\<rparr>"
    using response_recorded_raise_ends_worker[OF m, of 0 "\<lparr>image_id = 0, quality = ''low''\<rparr>" "1/10"]
    by simp
  have b: "step ?ep (Done 1 (1/10)) ?s =
      ?s\<lparr>workers := (workers ?s)[1 := Failed (ClientError ''timeout'')]\<rparr>"
    using response_recorded_raise_ends_worker[OF m, of 1 "\<lparr>image_id = 1, quality = ''low''\<rparr>" "1/10"]
    by simp
  from m a b show ?thesis by simp
qed

text \<open>
  The claim as stated fails: with one worker, one request and an endpoint whose
  exchange times out, nothing is recorded, the worker has failed, and \<^verbatim>\<open>main\<close> is
  still waiting in \<^verbatim>\<open>q.join()\<close>.
\<close>

theorem transport_error_counterexample:
  "main_state (\<lambda>item. Transport_error ''timeout'') [Get 0, Done 0 1] 1 1
     = Inr \<lparr>q = \<lparr>maxsize = 0, items = [], unfinished_tasks = 1\<rparr>, results = [],
            workers = [Failed (ClientError ''timeout'')]\<rparr> \<and>
   main (\<lambda>item. Transport_error ''timeout'') [Get 0, Done 0 1] 1 1 = Blocked"
  by code_simp


text \<open>
  C4, as the code has it. The queue has no close operation: \<^verbatim>\<open>q.get()\<close> on an empty
  queue keeps the worker suspended. \<^verbatim>\<open>main\<close> never enqueues the \<^verbatim>\<open>None\<close> sentinel,
  so no worker leaves its loop through the sentinel branch: until \<^verbatim>\<open>main\<close> cancels
  them, every worker is idle at \<^verbatim>\<open>q.get()\<close> (suspended there or not yet started),
  inside an HTTP exchange, or ended by the exception its exchange raised. When
  \<^verbatim>\<open>q.join()\<close> returns, every buffered item has been dequeued and answered, every
  worker is idle at \<^verbatim>\<open>q.get()\<close>, and \<^verbatim>\<open>main\<close> then ends each of them with
  \<^verbatim>\<open>cancel()\<close>.
\<close>

theorem workers_end_by_raise_or_cancel:
  assumes "main_state ep sched concurrency tot = Inr s"
  shows "(\<forall>wk \<in> set (workers s).
            wk = Waiting \<or> (\<exists>item. wk = Posting item) \<or> (\<exists>m. wk = Failed (ClientError m))) \<and>
         (join_returns (q s) \<longrightarrow>
            items (q s) = [] \<and> length (results s) = nat tot \<and>
            (\<forall>wk \<in> set (workers s). wk = Waiting) \<and>
            worker_get (q s) = (Waiting, q s) \<and>
            (\<forall>wk \<in> set (workers (cancel_all s)). wk = Cancelled))"
proof -
  note i = main_state_inv[OF assms]
  have "\<forall>wk \<in> set (workers s).
            wk = Waiting \<or> (\<exists>item. wk = Posting item) \<or> (\<exists>m. wk = Failed (ClientError m))"
    using running_main_state[OF assms] by (simp add: list_all_iff running_or_raised_cases)
  moreover have "items (q s) = [] \<and> length (results s) = nat tot \<and>
            (\<forall>wk \<in> set (workers s). wk = Waiting) \<and>
            worker_get (q s) = (Waiting, q s) \<and>
            (\<forall>wk \<in> set (workers (cancel_all s)). wk = Cancelled)" if j: "join_returns (q s)"
  proof -
    have e: "items (q s) = []" by (rule inv_joined(1)[OF i j])
    have n: "length (results s) = nat tot" using inv_joined(4)[OF i j] by simp
    have wt: "\<forall>wk \<in> set (workers s). wk = Waiting"
      using inv_joined_workers[OF i j] by blast
    have g: "worker_get (q s) = (Waiting, q s)"
      using e by (simp add: worker_get_def get_def)
    have "\<forall>wk \<in> set (workers (cancel_all s)). wk = Cancelled"
      using wt by (auto simp: cancel_all_def)
    with e n wt g show ?thesis by blast
  qed
  ultimately show ?thesis by blast
qed

theorem workers_end_by_raise_or_cancel_witness:
  "main_state (\<lambda>item. Response 200) [Get 0, Done 0 (1/100), Get 1, Done 1 (1/50)] 2 2
     = Inr \<lparr>q = \<lparr>maxsize = 0, items = [], unfinished_tasks = 0\<rparr>,
            results = [(200, 1/100), (200, 1/50)], workers = [Waiting, Waiting]\<rparr> \<and>
   join_returns \<lparr>maxsize = 0, items = [], unfinished_tasks = 0\<rparr> \<and>
   worker_get \<lparr>maxsize = 0, items = [], unfinished_tasks = 0\<rparr>
     = (Waiting, \<lparr>maxsize = 0, items = [], unfinished_tasks = 0\<rparr>) \<and>
   workers (cancel_all \<lparr>q = \<lparr>maxsize = 0, items = [], unfinished_tasks = 0\<rparr>,
            results = [(200, 1/100), (200, 1/50)], workers = [Waiting, Waiting]\<rparr>)
     = [Cancelled, Cancelled] \<and>
   main_state (\<lambda>item. if image_id item = 0 then Transport_error ''timeout'' else Response 200)
       [Get 0, Get 1, Done 0 1] 3 3
     = Inr \<lparr>q = \<lparr>maxsize = 0, items = [Some \<lparr>image_id = 2, quality = ''low''\<rparr>],
                 unfinished_tasks = 3\<rparr>,
            results = [],
            workers = [Failed (ClientError ''timeout''),
                       Posting \<lparr>image_id = 1, quality = ''low''\<rparr>, Waiting]\<rparr> \<and>
   (Failed (ClientError ''timeout'') = Waiting \<or>
    (\<exists>item. Failed (ClientError ''timeout'') = Posting item) \<or>
    (\<exists>m. Failed (ClientError ''timeout'') = Failed (ClientError m)))"
proof -
  let ?s = "\<lparr>q = \<lparr>maxsize = 0, items = [], unfinished_tasks = 0\<rparr>,
            results = [(200, 1/100), (200, 1/50)], workers = [Waiting, Waiting]\<rparr>"
  have m: "main_state (\<lambda>item. Response 200) [Get 0, Done 0 (1/100), Get 1, Done 1 (1/50)] 2 2
     = Inr ?s"
    by code_simp
  have j: "join_returns (q ?s)" by (simp add: join_returns_def)
  from workers_end_by_raise_or_cancel[OF m] j
  have a: "worker_get (q ?s) = (Waiting, q ?s) \<and>
        (\<forall>wk \<in> set (workers (cancel_all ?s)). wk = Cancelled)"
    by blast
  let ?ep' = "\<lambda>item. if image_id item = 0 then Transport_error ''timeout'' else Response 200"
  let ?s' = "\<lparr>q = \<lparr>maxsize = 0, items = [Some \<lparr>image_id = 2, quality = ''low''\<rparr>],
                 unfinished_tasks = 3\<rparr>,
            results = [],
            workers = [Failed (ClientError ''timeout''),
                       Posting \<lparr>image_id = 1, quality = ''low''\<rparr>, Waiting]\<rparr>"
  have m': "main_state ?ep' [Get 0, Get 1, Done 0 1] 3 3 = Inr ?s'"
    by code_simp
  from workers_end_by_raise_or_cancel[OF m']
  have "\<forall>wk \<in> set (workers ?s').
            wk = Waiting \<or> (\<exists>item. wk = Posting item) \<or> (\<exists>m. wk = Failed (ClientError m))"
    by blast
  then have b: "Failed (ClientError ''timeout'') = Waiting \<or>
    (\<exists>item. Failed (ClientError ''timeout'') = Posting item) \<or>
    (\<exists>m. Failed (ClientError ''timeout'') = Failed (ClientError m))"
    by simp
  from m j a m' b show ?thesis by (simp add: cancel_all_def)
qed

text \<open>
  The claim as stated fails: with one worker, one request and an endpoint that answers
  200, the worker is suspended at \<^verbatim>\<open>q.get()\<close> on the empty queue when
  \<^verbatim>\<open>q.join()\<close> returns; the queue gives it nothing, resuming it leaves it
  suspended, and it ends when \<^verbatim>\<open>main\<close> cancels it.
\<close>

theorem worker_blocked_then_cancelled_counterexample:
  "main_state (\<lambda>item. Response 200) [Get 0, Done 0 (1/100)] 1 1
     = Inr \<lparr>q = \<lparr>maxsize = 0, items = [], unfinished_tasks = 0\<rparr>,
            results = [(200, 1/100)], workers = [Waiting]\<rparr> \<and>
   get \<lparr>maxsize = 0, items = [], unfinished_tasks = 0\<rparr> = None \<and>
   step (\<lambda>item. Response 200) (Get 0)
        \<lparr>q = \<lparr>maxsize = 0, items = [], unfinished_tasks = 0\<rparr>,
         results = [(200, 1/100)], workers = [Waiting]\<rparr>
     = \<lparr>q = \<lparr>maxsize = 0, items = [], unfinished_tasks = 0\<rparr>,
        results = [(200, 1/100)], workers = [Waiting]\<rparr> \<and>
   cancel_all \<lparr>q = \<lparr>maxsize = 0, items = [], unfinished_tasks = 0\<rparr>,
               results = [(200, 1/100)], workers = [Waiting]\<rparr>
     = \<lparr>q = \<lparr>maxsize = 0, items = [], unfinished_tasks = 0\<rparr>,
        results = [(200, 1/100)], workers = [Cancelled]\<rparr>"
  by code_simp


text \<open>
  C5, as the code has it. The queue is built by \<^verbatim>\<open>asyncio.Queue()\<close>, with no bound
  (\<open>maxsize = 0\<close>): \<^verbatim>\<open>put_nowait\<close> never finds it full, so it neither raises nor
  blocks, and after the filling loop the queue holds all \<open>total\<close> payloads, in order,
  before any worker runs. No item is lost.
\<close>

theorem queue_unbounded_holds_all_items:
  "fill (Queue 0) (py_range tot)
     = Inr \<lparr>maxsize = 0, items = map (\<lambda>i. Some (payload i)) (py_range tot),
            unfinished_tasks = nat tot\<rparr> \<and>
   (\<forall>qu x. maxsize qu = 0 \<longrightarrow>
      \<not> full qu \<and>
      put_nowait qu x = Inr (qu\<lparr>items := items qu @ [x],
                                unfinished_tasks := Suc (unfinished_tasks qu)\<rparr>))"
  by (simp add: fill_Queue0 put_nowait_def full_def)

theorem queue_unbounded_holds_all_items_witness:
  "fill (Queue 0) (py_range 3)
     = Inr \<lparr>maxsize = 0,
            items = [Some \<lparr>image_id = 0, quality = ''low''\<rparr>,
                     Some \<lparr>image_id = 1, quality = ''low''\<rparr>,
                     Some \<lparr>image_id = 2, quality = ''low''\<rparr>],
            unfinished_tasks = 3\<rparr> \<and>
   maxsize (Queue 0) = 0 \<and>
   put_nowait (Queue 0) None = Inr \<lparr>maxsize = 0, items = [None], unfinished_tasks = 1\<rparr>"
proof -
  have r: "map (\<lambda>i. Some (payload i)) (py_range 3)
      = [Some \<lparr>image_id = 0, quality = ''low''\<rparr>, Some \<lparr>image_id = 1, quality = ''low''\<rparr>,
         Some \<lparr>image_id = 2, quality = ''low''\<rparr>]"
    by code_simp
  have m: "maxsize (Queue 0) = 0" by (simp add: Queue_def)
  from queue_unbounded_holds_all_items[of 3] m
  have "fill (Queue 0) (py_range 3)
     = Inr \<lparr>maxsize = 0, items = map (\<lambda>i. Some (payload i)) (py_range 3), unfinished_tasks = 3\<rparr>"
    and "put_nowait (Queue 0) None
     = Inr ((Queue 0)\<lparr>items := items (Queue 0) @ [None],
                      unfinished_tasks := Suc (unfinished_tasks (Queue 0))\<rparr>)"
    by simp_all
  with r m show ?thesis by (simp add: Queue_def)
qed

text \<open>
  The claim as stated fails: with three requests the queue holds all three payloads
  before any worker runs and is not full; and no capacity bounds the filled queue for
  every request count.
\<close>

theorem queue_capacity_counterexample:
  "main_state (\<lambda>item. Response 200) [] 1 3
     = Inr \<lparr>q = \<lparr>maxsize = 0,
                 items = [Some \<lparr>image_id = 0, quality = ''low''\<rparr>,
                          Some \<lparr>image_id = 1, quality = ''low''\<rparr>,
                          Some \<lparr>image_id = 2, quality = ''low''\<rparr>],
                 unfinished_tasks = 3\<rparr>,
            results = [], workers = [Waiting]\<rparr> \<and>
   \<not> full \<lparr>maxsize = 0,
            items = [Some \<lparr>image_id = 0, quality = ''low''\<rparr>,
                     Some \<lparr>image_id = 1, quality = ''low''\<rparr>,
                     Some \<lparr>image_id = 2, quality = ''low''\<rparr>],
            unfinished_tasks = 3\<rparr> \<and>
   \<not> (\<exists>cap. \<forall>tot qu. fill (Queue 0) (py_range tot) = Inr qu \<longrightarrow> length (items qu) \<le> cap)"
proof -
  have a: "main_state (\<lambda>item. Response 200) [] 1 3
     = Inr \<lparr>q = \<lparr>maxsize = 0,
                 items = [Some \<lparr>image_id = 0, quality = ''low''\<rparr>,
                          Some \<lparr>image_id = 1, quality = ''low''\<rparr>,
                          Some \<lparr>image_id = 2, quality = ''low''\<rparr>],
                 unfinished_tasks = 3\<rparr>,
            results = [], workers = [Waiting]\<rparr>"
    by code_simp
  have b: "\<not> full \<lparr>maxsize = 0,
            items = [Some \<lparr>image_id = 0, quality = ''low''\<rparr>,
                     Some \<lparr>image_id = 1, quality = ''low''\<rparr>,
                     Some \<lparr>image_id = 2, quality = ''low''\<rparr>],
            unfinished_tasks = 3\<rparr>"
    by (simp add: full_def)
  have c: "\<not> (\<exists>cap. \<forall>tot qu. fill (Queue 0) (py_range tot) = Inr qu \<longrightarrow> length (items qu) \<le> cap)"
  proof
    assume "\<exists>cap. \<forall>tot qu. fill (Queue 0) (py_range tot) = Inr qu \<longrightarrow> length (items qu) \<le> cap"
    then obtain cap where
      h: "\<And>tot qu. fill (Queue 0) (py_range tot) = Inr qu \<Longrightarrow> length (items qu) \<le> cap"
      by blast
    have "length (items \<lparr>maxsize = 0, items = map (\<lambda>i. Some (payload i)) (py_range (int (Suc cap))),
            unfinished_tasks = length (py_range (int (Suc cap)))\<rparr>) \<le> cap"
      by (rule h) (rule fill_Queue0)
    then show False by simp
  qed
  from a b c show ?thesis by blast
qed

text \<open>
  C6, as the code has it. When \<^verbatim>\<open>INFERENCE_ENDPOINT\<close> is unset or empty the module
  raises \<^verbatim>\<open>SystemExit\<close> (exit status 1) at import, before the queue is built or a
  worker is created, whatever the concurrency and the request count. Any other
  endpoint text, and any integers for the concurrency and the request count, are
  passed to \<^verbatim>\<open>main\<close> unchecked.
\<close>

theorem missing_endpoint_exits_before_work:
  "(env = None \<or> env = Some [] \<longrightarrow>
      harness env net sched concurrency tot = Raised (SystemExit ''Set INFERENCE_ENDPOINT in .env'') \<and>
      exit_status (harness env net sched concurrency tot) = Some 1) \<and>
   (\<forall>url. env = Some url \<and> url \<noteq> [] \<longrightarrow>
      harness env net sched concurrency tot = main (net url) sched concurrency tot)"
  by (auto simp: harness_def ENDPOINT_def)

theorem missing_endpoint_exits_before_work_witness:
  "harness None (\<lambda>url item. Response 200) [Get 0, Done 0 (1/100)] 1 1
     = Raised (SystemExit ''Set INFERENCE_ENDPOINT in .env'') \<and>
   harness (Some []) (\<lambda>url item. Response 200) [Get 0, Done 0 (1/100)] 1 1
     = Raised (SystemExit ''Set INFERENCE_ENDPOINT in .env'') \<and>
   exit_status (harness None (\<lambda>url item. Response 200) [Get 0, Done 0 (1/100)] 1 1) = Some 1 \<and>
   harness (Some ''http://gpu:8000/infer'') (\<lambda>url item. Response 200) [Get 0, Done 0 (1/100)] 1 1
     = Printed \<lparr>n_requests = 1, n_ok = 1, avg_latency = 1/100\<rparr>"
proof -
  let ?net = "\<lambda>(url :: string) (item :: work_item). Response 200"
  let ?sched = "[Get 0, Done 0 (1/100)]"
  have m: "main (?net ''http://gpu:8000/infer'') ?sched 1 1
      = Printed \<lparr>n_requests = 1, n_ok = 1, avg_latency = 1/100\<rparr>"
    by code_simp
  from missing_endpoint_exits_before_work[of None ?net ?sched 1 1]
    missing_endpoint_exits_before_work[of "Some []" ?net ?sched 1 1]
    missing_endpoint_exits_before_work[of "Some ''http://gpu:8000/infer''" ?net ?sched 1 1]
    m
  show ?thesis by simp
qed

text \<open>
  The claim as stated fails: with the endpoint set, concurrency 0 and one request leave
  \<^verbatim>\<open>main\<close> blocked in \<^verbatim>\<open>q.join()\<close>; a request count of \<open>-1\<close> creates two workers
  and then raises \<^verbatim>\<open>ZeroDivisionError\<close>; and a text that is no URL is accepted as
  the endpoint.
\<close>

theorem unvalidated_configuration_counterexample:
  "harness (Some ''http://gpu:8000/infer'') (\<lambda>url item. Response 200) [Get 0, Done 0 (1/100)] 0 1
     = Blocked \<and>
   main_state (\<lambda>item. Response 200) [Get 0, Done 0 (1/100)] 2 (- 1)
     = Inr \<lparr>q = \<lparr>maxsize = 0, items = [], unfinished_tasks = 0\<rparr>, results = [],
            workers = [Waiting, Waiting]\<rparr> \<and>
   harness (Some ''http://gpu:8000/infer'') (\<lambda>url item. Response 200) [Get 0, Done 0 (1/100)] 2 (- 1)
     = Raised ZeroDivisionError \<and>
   ENDPOINT (Some ''not a url'') = Inr ''not a url''"
  by code_simp

section \<open>The claim about the readiness endpoint\<close>

text \<open>
  C9, as the code has it. \<^verbatim>\<open>readyz\<close> returns \<^verbatim>\<open>{"ready": True}\<close> when connecting
  and closing succeed, and \<^verbatim>\<open>{"ready": False, "error": str(e)}\<close> when either raises
  an instance \<open>e\<close> of \<^verbatim>\<open>Exception\<close>. A raise that is not an instance of
  \<^verbatim>\<open>Exception\<close> is not caught by the handler and reaches the caller; nothing else does.
\<close>

theorem readyz_catches_Exception_only:
  "(\<forall>conn. connect (environ ''DATABASE_URL'') = Inr conn \<and> close conn = Inr () \<longrightarrow>
      readyz connect environ = Inr [(''ready'', JBool True)]) \<and>
   (\<forall>e. connect (environ ''DATABASE_URL'') = Inl e \<or>
        (\<exists>conn. connect (environ ''DATABASE_URL'') = Inr conn \<and> close conn = Inl e) \<longrightarrow>
      readyz connect environ =
        (if is_Exception e then Inr [(''ready'', JBool False), (''error'', JStr (str e))]
         else Inl e)) \<and>
   (\<forall>e. readyz connect environ = Inl e \<longrightarrow>
      \<not> is_Exception e \<and>
      (connect (environ ''DATABASE_URL'') = Inl e \<or>
       (\<exists>conn. connect (environ ''DATABASE_URL'') = Inr conn \<and> close conn = Inl e)))"
  by (auto simp: readyz_def try_except_def split: sum.splits if_splits)

theorem readyz_catches_Exception_only_witness:
  "readyz (\<lambda>dsn. Inr (Connection (Inr ()))) Map.empty = Inr [(''ready'', JBool True)] \<and>
   readyz (\<lambda>dsn. Inl (Exn True ''connection refused'')) [''DATABASE_URL'' \<mapsto> ''postgres://db/app'']
     = Inr [(''ready'', JBool False), (''error'', JStr ''connection refused'')] \<and>
   readyz (\<lambda>dsn. Inr (Connection (Inl (Exn True ''connection is closed'')))) Map.empty
     = Inr [(''ready'', JBool False), (''error'', JStr ''connection is closed'')] \<and>
   readyz (\<lambda>dsn. Inr (Connection (Inl (Exn False [])))) Map.empty = Inl (Exn False [])"
proof -
  have a: "readyz (\<lambda>dsn. Inr (Connection (Inr ()))) Map.empty = Inr [(''ready'', JBool True)]"
    using readyz_catches_Exception_only[of "\<lambda>dsn. Inr (Connection (Inr ()))" Map.empty]
    by simp
  have b: "readyz (\<lambda>dsn. Inl (Exn True ''connection refused''))
              [''DATABASE_URL'' \<mapsto> ''postgres://db/app'']
     = Inr [(''ready'', JBool False), (''error'', JStr ''connection refused'')]"
    using readyz_catches_Exception_only[of "\<lambda>dsn. Inl (Exn True ''connection refused'')"
        "[''DATABASE_URL'' \<mapsto> ''postgres://db/app'']"]
    by simp
  have c: "readyz (\<lambda>dsn. Inr (Connection (Inl (Exn True ''connection is closed'')))) Map.empty
     = Inr [(''ready'', JBool False), (''error'', JStr ''connection is closed'')]"
    using readyz_catches_Exception_only[of
        "\<lambda>dsn. Inr (Connection (Inl (Exn True ''connection is closed'')))" Map.empty]
    by simp
  have d: "readyz (\<lambda>dsn. Inr (Connection (Inl (Exn False [])))) Map.empty = Inl (Exn False [])"
    using readyz_catches_Exception_only[of
        "\<lambda>dsn. Inr (Connection (Inl (Exn False [])))" Map.empty]
    by simp
  from a b c d show ?thesis by blast
qed

text \<open>
  The claim as stated fails: when the request's task is cancelled while it awaits
  \<^verbatim>\<open>asyncpg.connect\<close>, the \<^verbatim>\<open>CancelledError\<close> (no instance of \<^verbatim>\<open>Exception\<close>, empty
  text) leaves \<^verbatim>\<open>readyz\<close>: no response is returned.
\<close>

theorem readyz_propagates_counterexample:
  "readyz (\<lambda>dsn. Inl (Exn False [])) [''DATABASE_URL'' \<mapsto> ''postgres://db/app'']
     = Inl (Exn False [])"
  by (simp add: readyz_def try_except_def)

section \<open>The claim about the logger factory\<close>

lemma get_logger_configured:
  assumes "reg name = Some lg" and "handlers lg \<noteq> []"
  shows "get_logger os name log_file reg = (Inr name, reg)"
  using assms by (simp add: get_logger_def getLogger_def)

lemma get_logger_Inr:
  assumes "get_logger os name log_file reg = (Inr r, reg1)"
  shows "r = name \<and> (\<exists>lg. reg1 name = Some lg \<and> handlers lg \<noteq> [])"
  using assms
  by (auto simp: get_logger_def getLogger_def addHandler_def Let_def
      split: option.splits if_splits sum.splits)

text \<open>
  C10. A call of \<^verbatim>\<open>get_logger\<close> for a name whose logger already has handlers returns
  that logger and changes nothing: the registry, and with it the logger's level and
  its list of handlers, is the same afterwards. So a second call after a successful
  one, with whatever log file and environment, attaches no further handler.
\<close>

theorem get_logger_idempotent:
  "(\<forall>lg. reg name = Some lg \<and> handlers lg \<noteq> [] \<longrightarrow>
       get_logger os name log_file reg = (Inr name, reg)) \<and>
   (\<forall>r reg1. get_logger os name log_file reg = (Inr r, reg1) \<longrightarrow>
       r = name \<and> get_logger os' name log_file' reg1 = (Inr r, reg1))"
proof (intro conjI allI impI)
  fix lg assume "reg name = Some lg \<and> handlers lg \<noteq> []"
  then show "get_logger os name log_file reg = (Inr name, reg)"
    by (simp add: get_logger_configured)
next
  fix r reg1 assume a: "get_logger os name log_file reg = (Inr r, reg1)"
  from get_logger_Inr[OF a] show "r = name" by simp
next
  fix r reg1 assume a: "get_logger os name log_file reg = (Inr r, reg1)"
  from get_logger_Inr[OF a] obtain lg where "r = name" "reg1 name = Some lg" "handlers lg \<noteq> []"
    by blast
  then show "get_logger os' name log_file' reg1 = (Inr r, reg1)"
    by (simp add: get_logger_configured)
qed

theorem get_logger_idempotent_witness:
  "get_logger \<lparr>getenv = Map.empty, makedirs = (\<lambda>d. None), open_file = (\<lambda>f. None)\<rparr>
     ''app'' ''logs/app.log'' Map.empty
   = (Inr ''app'',
      [''app'' \<mapsto> \<lparr>level = 20,
                   handlers = [RotatingFileHandler ''logs/app.log'' 5242880 5 JsonFormatter,
                               StreamHandler JsonFormatter]\<rparr>]) \<and>
   get_logger \<lparr>getenv = [''LOG_LEVEL'' \<mapsto> ''debug''],
               makedirs = (\<lambda>d. Some (OSError ''read-only file system'')),
               open_file = (\<lambda>f. None)\<rparr>
     ''app'' ''other/app.log''
     [''app'' \<mapsto> \<lparr>level = 20,
                  handlers = [RotatingFileHandler ''logs/app.log'' 5242880 5 JsonFormatter,
                              StreamHandler JsonFormatter]\<rparr>]
   = (Inr ''app'',
      [''app'' \<mapsto> \<lparr>level = 20,
                   handlers = [RotatingFileHandler ''logs/app.log'' 5242880 5 JsonFormatter,
                               StreamHandler JsonFormatter]\<rparr>])"
proof -
  let ?os = "\<lparr>getenv = Map.empty, makedirs = (\<lambda>d. None), open_file = (\<lambda>f. None)\<rparr>"
  let ?os' = "\<lparr>getenv = [''LOG_LEVEL'' \<mapsto> ''debug''],
               makedirs = (\<lambda>d. Some (OSError ''read-only file system'')),
               open_file = (\<lambda>f. None)\<rparr>"
  let ?reg1 = "[''app'' \<mapsto> \<lparr>level = 20,
                   handlers = [RotatingFileHandler ''logs/app.log'' 5242880 5 JsonFormatter,
                               StreamHandler JsonFormatter]\<rparr>]"
  have a: "get_logger ?os ''app'' ''logs/app.log'' Map.empty = (Inr ''app'', ?reg1)"
    by (simp add: get_logger_def getLogger_def checkLevel_def nameToLevel_def upper_def
        upper_char_def addHandler_def Let_def)
  from get_logger_idempotent[of Map.empty "''app''" ?os "''logs/app.log''" ?os' "''other/app.log''"] a
  have "get_logger ?os' ''app'' ''other/app.log'' ?reg1 = (Inr ''app'', ?reg1)"
    by blast
  with a show ?thesis by blast
qed

end
